theory Spec2Isabelle
  imports Main
begin

section \<open>The redis-backed rate limiter (redis_limiter.go)\<close>

text \<open>
  The package has two limiters behind one interface, \<open>Limiter\<close>, whose only method is
  \<open>Take() (time.Time, error)\<close>: the leaf \<open>redisLimiter\<close>, which polls a quota store,
  and \<open>compositeLimiter\<close>, which asks each of its constituents in turn.

  Everything \<open>Take\<close> does besides returning a value is an interaction with its
  environment: it reads the clock (\<open>time.Now()\<close>), it queries the quota store
  (\<open>Allow\<close>) and it waits in a \<open>select\<close> for a timer or for the cancellation of its
  context. The model threads a \<open>world\<close> through every call. The world fixes what the
  environment answers to the k-th clock reading, the k-th store query and the k-th wait,
  and counts how many of each have been made. A statement that holds for every world
  holds for every behaviour of clock, store and context. The model follows one caller:
  the read/write lock of the composite is not represented.
\<close>

subsection \<open>Values\<close>

text \<open>
  \<open>time.Time\<close> is an instant and \<open>time.Duration\<close> a signed count of nanoseconds. The
  code only compares a duration with zero and never computes with either, so both are
  integers here; the zero \<open>time.Time\<close> is the instant 0.
\<close>

type_synonym Time = int
type_synonym Duration = int

definition Second :: Duration where
  "Second = 1000000000"

text \<open>
  A Go \<open>error\<close> is \<open>nil\<close> or an error value: \<open>error option\<close>, with \<open>None\<close> for \<open>nil\<close>.
  \<open>ErrIntervalServer\<close> is the package's own sentinel; every other error comes from the
  store.
\<close>

datatype error = ErrIntervalServer | StoreError string

text \<open>The run-time panic of a method call or a field read through \<open>nil\<close>.\<close>

datatype panic = NilPointerDereference

text \<open>
  \<open>context.Context\<close>. \<open>context.Background()\<close> is never cancelled: its \<open>Done()\<close> is the
  nil channel, on which a receive blocks forever. Any other context has a channel that is
  closed when the context is cancelled. Contexts are taken to be non-nil.
\<close>

datatype Context = Background | Cancellable nat

fun Done :: "Context \<Rightarrow> nat option" where
  "Done Background = None"
| "Done (Cancellable ch) = Some ch"

text \<open>
  Modelled from the spec: the declarations of \<open>redis_rate.Limit\<close> and
  \<open>redis_rate.Result\<close> belong to the imported library. \<open>Limit\<close> has the three fields
  that \<open>New\<close> fills in (the spec's quota \<open>{rateUnits, burst, period}\<close>); of \<open>Result\<close>
  the two fields that \<open>Take\<close> reads are kept: \<open>Allowed\<close>, which the code compares with
  zero as an integer, and \<open>RetryAfter\<close>.
\<close>

record Limit =
  Rate :: int
  Burst :: int
  Period :: Duration

record Result =
  Allowed :: int
  RetryAfter :: Duration

text \<open>
  What \<open>Allow\<close> returns: a \<open>*Result\<close>, which may be \<open>nil\<close>, and an \<open>error\<close>, which
  may be \<open>nil\<close>.
\<close>

type_synonym reply = "Result option \<times> error option"

text \<open>Which case of the \<open>select\<close> in \<open>Take\<close> became ready first.\<close>

datatype wake = TimerElapsed | ContextDone

subsection \<open>The environment\<close>

record world =
  clock :: "nat \<Rightarrow> Time"
  ticks :: nat
  store :: "nat \<Rightarrow> string \<Rightarrow> Limit \<Rightarrow> reply"
  asked :: nat
  wakes :: "nat \<Rightarrow> wake"
  waited :: nat

text \<open>\<open>time.Now()\<close>: the next reading of the clock.\<close>

definition time_Now :: "world \<Rightarrow> Time \<times> world" where
  "time_Now w = (clock w (ticks w), w\<lparr>ticks := Suc (ticks w)\<rparr>)"

text \<open>
  \<open>redis_rate.NewLimiter(rdb)\<close> wraps the client handle; the handle's type \<open>'c\<close> is a
  parameter.
\<close>

datatype 'c rate_Limiter = NewLimiter 'c

text \<open>
  \<open>(*redis_rate.Limiter).Allow(ctx, key, limit)\<close>: one consume-attempt against the
  store, answered by the environment.
\<close>

definition Allow :: "'c rate_Limiter \<Rightarrow> Context \<Rightarrow> string \<Rightarrow> Limit \<Rightarrow> world \<Rightarrow> reply \<times> world" where
  "Allow lim c k l w = (store w (asked w) k l, w\<lparr>asked := Suc (asked w)\<rparr>)"

text \<open>
  \<open>select { case <-time.After(d): ... case <-ctx.Done(): ... }\<close>. The environment
  decides which channel is ready first, except that the nil channel of a context that is
  never cancelled is never ready.
\<close>

definition select_wait :: "Duration \<Rightarrow> Context \<Rightarrow> world \<Rightarrow> wake \<times> world" where
  "select_wait d c w =
     (case Done c of
        None \<Rightarrow> TimerElapsed
      | Some ch \<Rightarrow> wakes w (waited w),
      w\<lparr>waited := Suc (waited w)\<rparr>)"

text \<open>
  The outcome of a call of \<open>Take\<close>: \<open>None\<close> when the call never returns, otherwise a
  panic or the returned pair together with the world the call leaves behind.
\<close>

type_synonym outcome = "(panic + (Time \<times> error option) \<times> world) option"

subsection \<open>Construction\<close>

record config =
  per :: Duration
  ctx :: Context

text \<open>
  \<open>type Option func(*config)\<close>: a function that updates the configuration, or \<open>nil\<close>.
\<close>

type_synonym Option = "(config \<Rightarrow> config) option"

definition Per :: "Duration \<Rightarrow> Option" where
  "Per d = Some (\<lambda>c. c\<lparr>per := d\<rparr>)"

definition WithContext :: "Context \<Rightarrow> Option" where
  "WithContext x = Some (\<lambda>c. c\<lparr>ctx := x\<rparr>)"

record 'c redisLimiter =
  limiter :: "'c rate_Limiter"
  key :: string
  limit :: Limit
  ctx :: Context

text \<open>
  \<open>for _, opt := range opts { opt(cfg) }\<close>; calling a nil function panics.
\<close>

fun apply_opts :: "Option list \<Rightarrow> config \<Rightarrow> panic + config" where
  "apply_opts [] cfg = Inr cfg"
| "apply_opts (None # opts) cfg = Inl NilPointerDereference"
| "apply_opts (Some opt # opts) cfg = apply_opts opts (opt cfg)"

text \<open>
  \<open>New\<close> returns the \<open>*redisLimiter\<close> as a \<open>Limiter\<close>; the model returns the struct,
  and \<open>Limiter_of\<close> below wraps it into the interface.
\<close>

definition New :: "'c \<Rightarrow> string \<Rightarrow> int \<Rightarrow> Option list \<Rightarrow> panic + 'c redisLimiter" where
  "New rdb k rate opts =
     (case apply_opts opts \<lparr>per = Second, config.ctx = Background\<rparr> of
        Inl p \<Rightarrow> Inl p
      | Inr cfg \<Rightarrow>
          Inr \<lparr>limiter = NewLimiter rdb,
               key = k,
               limit = \<lparr>Rate = rate, Burst = rate, Period = per cfg\<rparr>,
               ctx = config.ctx cfg\<rparr>)"

subsection \<open>redisLimiter.Take\<close>

text \<open>
  The \<open>for\<close> loop of \<open>Take\<close> may run forever (a store that always denies with a positive
  \<open>RetryAfter\<close>), so the function is partial: \<open>None\<close> is a call that never returns.
  The first test of the loop, \<open>err == nil && res.Allowed > 0\<close>, reads a field through
  \<open>res\<close> whenever \<open>err\<close> is nil; with a nil \<open>res\<close> that read panics.
\<close>

partial_function (option) redisLimiter_Take :: "'c redisLimiter \<Rightarrow> world \<Rightarrow> outcome" where
  "redisLimiter_Take l w =
     (case time_Now w of (now, w1) \<Rightarrow>
      case Allow (limiter l) (ctx l) (key l) (limit l) w1 of ((res, err), w2) \<Rightarrow>
      if err = None \<and> res = None then Some (Inl NilPointerDereference)
      else if err = None \<and> Allowed (the res) > 0 then Some (Inr ((now, None), w2))
      else if err \<noteq> None then
        (case time_Now w2 of (t, w3) \<Rightarrow> Some (Inr ((t, err), w3)))
      else if res = None then
        (case time_Now w2 of (t, w3) \<Rightarrow> Some (Inr ((t, Some ErrIntervalServer), w3)))
      else if RetryAfter (the res) > 0 then
        (case select_wait (RetryAfter (the res)) (ctx l) w2 of
           (TimerElapsed, w3) \<Rightarrow> redisLimiter_Take l w3
         | (ContextDone, w3) \<Rightarrow>
             (case time_Now w3 of (t, w4) \<Rightarrow> Some (Inr ((t, None), w4))))
      else Some (Inr ((now, None), w2)))"

subsection \<open>The Limiter interface and compositeLimiter\<close>

text \<open>
  A value of the interface type \<open>Limiter\<close> is \<open>nil\<close> or an object with a \<open>Take\<close>
  method; the object is represented by what its method does.
\<close>

datatype Limiter = NilLimiter | Limiter "world \<Rightarrow> outcome"

fun call_Take :: "Limiter \<Rightarrow> world \<Rightarrow> outcome" where
  "call_Take NilLimiter w = Some (Inl NilPointerDereference)"
| "call_Take (Limiter method) w = method w"

definition Limiter_of :: "'c redisLimiter \<Rightarrow> Limiter" where
  "Limiter_of l = Limiter (redisLimiter_Take l)"

record compositeLimiter =
  limiters :: "Limiter list"

definition NewComposite :: "Limiter list \<Rightarrow> compositeLimiter" where
  "NewComposite ls = \<lparr>limiters = ls\<rparr>"

definition AddLimiter :: "compositeLimiter \<Rightarrow> Limiter \<Rightarrow> compositeLimiter" where
  "AddLimiter c l = c\<lparr>limiters := limiters c @ [l]\<rparr>"

text \<open>
  \<open>for _, limiter := range limiters { lastTime, err = limiter.Take(); ... }\<close> followed by
  \<open>return lastTime, nil\<close>; the second argument is the value of \<open>lastTime\<close> so far.
\<close>

fun range_limiters :: "Limiter list \<Rightarrow> Time \<Rightarrow> world \<Rightarrow> outcome" where
  "range_limiters [] lastTime w = Some (Inr ((lastTime, None), w))"
| "range_limiters (l # ls) lastTime w =
     (case call_Take l w of
        None \<Rightarrow> None
      | Some (Inl p) \<Rightarrow> Some (Inl p)
      | Some (Inr ((t, err), w1)) \<Rightarrow>
          if err \<noteq> None then
            (case time_Now w1 of (now, w2) \<Rightarrow> Some (Inr ((now, err), w2)))
          else range_limiters ls t w1)"

definition compositeLimiter_Take :: "compositeLimiter \<Rightarrow> world \<Rightarrow> outcome" where
  "compositeLimiter_Take c w =
     (let snapshot = limiters c in
      if length snapshot = 0 then
        (case time_Now w of (now, w1) \<Rightarrow> Some (Inr ((now, None), w1)))
      else range_limiters snapshot 0 w)"

text \<open>
  A composite satisfies \<open>Limiter\<close> as well: as a constituent of another composite it is
  \<open>Limiter (compositeLimiter_Take c)\<close>.
\<close>


subsection \<open>Example environment\<close>

text \<open>
  A store that answers by key, a clock that starts at 1000 and advances by one at every
  reading, and a context whose cancellation always arrives before the timer.
\<close>

definition example_store :: "nat \<Rightarrow> string \<Rightarrow> Limit \<Rightarrow> reply" where
  "example_store n k l =
     (if k = ''granted'' then (Some \<lparr>Allowed = 1, RetryAfter = - 1\<rparr>, None)
      else if k = ''exhausted'' then (Some \<lparr>Allowed = 0, RetryAfter = 250\<rparr>, None)
      else if k = ''degenerate'' then (Some \<lparr>Allowed = 0, RetryAfter = 0\<rparr>, None)
      else if k = ''malformed'' then (None, None)
      else (None, Some (StoreError ''connection refused'')))"

definition example_world :: world where
  "example_world =
     \<lparr>clock = (\<lambda>n. 1000 + int n), ticks = 0, store = example_store, asked = 0,
      wakes = (\<lambda>n. ContextDone), waited = 0\<rparr>"

definition example_limiter :: "string \<Rightarrow> Context \<Rightarrow> unit redisLimiter" where
  "example_limiter k c =
     \<lparr>limiter = NewLimiter (), key = k,
      limit = \<lparr>Rate = 2, Burst = 2, Period = Second\<rparr>, ctx = c\<rparr>"

section \<open>One iteration of redisLimiter.Take\<close>

text \<open>
  Each lemma unfolds the loop once, from the world \<open>w\<close> in which an iteration starts.
  The reading \<open>now\<close> is \<open>fst (time_Now w)\<close>; the store is queried in the world after
  that reading, \<open>snd (time_Now w)\<close>.
\<close>

lemma Take_granted:
  assumes "Allow (limiter l) (ctx l) (key l) (limit l) (snd (time_Now w)) = ((Some r, None), w2)"
    and "0 < Allowed r"
  shows "redisLimiter_Take l w = Some (Inr ((fst (time_Now w), None), w2))"
  using assms by (subst redisLimiter_Take.simps) (simp add: case_prod_beta)

lemma Take_store_error:
  assumes "Allow (limiter l) (ctx l) (key l) (limit l) (snd (time_Now w)) = ((res, Some e), w2)"
  shows "redisLimiter_Take l w = Some (Inr ((fst (time_Now w2), Some e), snd (time_Now w2)))"
  using assms by (subst redisLimiter_Take.simps) (simp add: case_prod_beta)

lemma Take_nil_result:
  assumes "Allow (limiter l) (ctx l) (key l) (limit l) (snd (time_Now w)) = ((None, None), w2)"
  shows "redisLimiter_Take l w = Some (Inl NilPointerDereference)"
  using assms by (subst redisLimiter_Take.simps) (simp add: case_prod_beta)

lemma Take_cancelled:
  assumes "Allow (limiter l) (ctx l) (key l) (limit l) (snd (time_Now w)) = ((Some r, None), w2)"
    and "Allowed r \<le> 0" and "0 < RetryAfter r"
    and "select_wait (RetryAfter r) (ctx l) w2 = (ContextDone, w3)"
  shows "redisLimiter_Take l w = Some (Inr ((fst (time_Now w3), None), snd (time_Now w3)))"
  using assms by (subst redisLimiter_Take.simps) (simp add: case_prod_beta)

lemma Take_retry:
  assumes "Allow (limiter l) (ctx l) (key l) (limit l) (snd (time_Now w)) = ((Some r, None), w2)"
    and "Allowed r \<le> 0" and "0 < RetryAfter r"
    and "select_wait (RetryAfter r) (ctx l) w2 = (TimerElapsed, w3)"
  shows "redisLimiter_Take l w = redisLimiter_Take l w3"
  using assms by (subst redisLimiter_Take.simps) (simp add: case_prod_beta)

lemma Take_degenerate:
  assumes "Allow (limiter l) (ctx l) (key l) (limit l) (snd (time_Now w)) = ((Some r, None), w2)"
    and "Allowed r \<le> 0" and "RetryAfter r \<le> 0"
  shows "redisLimiter_Take l w = Some (Inr ((fst (time_Now w), None), w2))"
  using assms by (subst redisLimiter_Take.simps) (simp add: case_prod_beta)

text \<open>
  Whatever error \<open>Take\<close> returns, after any number of iterations, is an error that the
  store returned to one of its queries: the branch that returns \<open>ErrIntervalServer\<close> is
  never taken. The proof is by induction over the iterations of the loop.
\<close>

lemma Take_error_from_store_aux:
  "redisLimiter_Take l w = Some y \<Longrightarrow>
   \<forall>t e w'. y = Inr ((t, Some e), w') \<longrightarrow> (\<exists>n res. store w n (key l) (limit l) = (res, Some e))"
proof (induction rule: redisLimiter_Take.raw_induct [rotated, consumes 1, case_names iteration])
  case (iteration take l w y)
  show ?case
  proof (intro allI impI)
    fix t e w'
    assume y: "y = Inr ((t, Some e), w')"
    obtain res err where r: "store w (asked w) (key l) (limit l) = (res, err)"
      by (cases "store w (asked w) (key l) (limit l)")
    show "\<exists>n res. store w n (key l) (limit l) = (res, Some e)"
    proof (cases err)
      case (Some e')
      with iteration(2) r y have "e' = e"
        by (auto simp: time_Now_def Allow_def)
      with Some r show ?thesis by blast
    next
      case None
      with iteration(2) r y obtain w3 where again: "take l w3 = Some y" and same: "store w3 = store w"
        by (auto simp: time_Now_def Allow_def select_wait_def split: if_splits wake.splits)
      from iteration(1) [OF again] y same show ?thesis by simp
    qed
  qed
qed

lemma Take_error_from_store:
  "redisLimiter_Take l w = Some (Inr ((t, Some e), w')) \<Longrightarrow>
   \<exists>n res. store w n (key l) (limit l) = (res, Some e)"
  using Take_error_from_store_aux by blast

text \<open>The two example limiters used as constituents below.\<close>

lemma example_Take_granted:
  "store w = example_store \<Longrightarrow>
   redisLimiter_Take (example_limiter ''granted'' c) w =
     Some (Inr ((clock w (ticks w), None), w\<lparr>ticks := Suc (ticks w), asked := Suc (asked w)\<rparr>))"
  by (rule trans [OF Take_granted [where r = "\<lparr>Allowed = 1, RetryAfter = - 1\<rparr>"
        and ?w2.0 = "w\<lparr>ticks := Suc (ticks w), asked := Suc (asked w)\<rparr>"]])
     (simp_all add: example_limiter_def example_store_def Allow_def time_Now_def)

lemma example_Take_unreachable:
  "store w = example_store \<Longrightarrow>
   redisLimiter_Take (example_limiter ''unreachable'' c) w =
     Some (Inr ((clock w (Suc (ticks w)), Some (StoreError ''connection refused'')),
                w\<lparr>ticks := Suc (Suc (ticks w)), asked := Suc (asked w)\<rparr>))"
  by (rule trans [OF Take_store_error [where res = None
        and ?w2.0 = "w\<lparr>ticks := Suc (ticks w), asked := Suc (asked w)\<rparr>"]])
     (simp_all add: example_limiter_def example_store_def Allow_def time_Now_def)

section \<open>redisLimiter.Take: the claims\<close>

text \<open>
  Claim C2. When the consume-attempt of an iteration returns no error and a result with
  \<open>Allowed > 0\<close>, \<open>Take\<close> returns \<open>(now, nil)\<close>, where \<open>now\<close> is the clock reading taken
  at the start of that iteration, before the store was queried. The world it leaves is
  the one right after the query: no further clock reading, no wait.
\<close>

theorem redisLimiter_Take_allowed_returns_now:
  assumes "Allow (limiter l) (ctx l) (key l) (limit l) (snd (time_Now w)) = ((Some r, None), w2)"
    and "0 < Allowed r"
  shows "redisLimiter_Take l w = Some (Inr ((fst (time_Now w), None), w2))"
  using assms by (rule Take_granted)

theorem redisLimiter_Take_allowed_returns_now_witness:
  "redisLimiter_Take (example_limiter ''granted'' Background) example_world =
     Some (Inr ((1000, None), example_world\<lparr>ticks := 1, asked := 1\<rparr>))"
  using redisLimiter_Take_allowed_returns_now
    [of "example_limiter ''granted'' Background" example_world
      "\<lparr>Allowed = 1, RetryAfter = - 1\<rparr>" "example_world\<lparr>ticks := 1, asked := 1\<rparr>"]
  by (simp add: example_limiter_def example_world_def example_store_def Allow_def time_Now_def)

text \<open>
  Claim C3. When the consume-attempt returns an error \<open>e\<close> (whatever the result
  pointer), \<open>Take\<close> returns \<open>(time.Now(), e)\<close>: the same error value, with a fresh clock
  reading taken after the query. The store has been queried exactly once and no wait has
  taken place, so nothing was retried, and the returned error is not nil, so the call did
  not fail open.
\<close>

theorem redisLimiter_Take_store_error_propagated:
  assumes "Allow (limiter l) (ctx l) (key l) (limit l) (snd (time_Now w)) = ((res, Some e), w2)"
  shows "\<exists>t w3. redisLimiter_Take l w = Some (Inr ((t, Some e), w3)) \<and> (t, w3) = time_Now w2
     \<and> asked w3 = Suc (asked w) \<and> waited w3 = waited w"
  using assms Take_store_error [OF assms]
  by (auto simp: Allow_def time_Now_def)

theorem redisLimiter_Take_store_error_propagated_witness:
  "redisLimiter_Take (example_limiter ''unreachable'' Background) example_world =
     Some (Inr ((1001, Some (StoreError ''connection refused'')),
                example_world\<lparr>ticks := 2, asked := 1\<rparr>))"
  using redisLimiter_Take_store_error_propagated
    [of "example_limiter ''unreachable'' Background" example_world
      None "StoreError ''connection refused''" "example_world\<lparr>ticks := 1, asked := 1\<rparr>"]
  by (simp add: example_limiter_def example_world_def example_store_def Allow_def time_Now_def)

text \<open>
  Claim C4 says that a nil result together with a nil error makes \<open>Take\<close> return
  \<open>ErrIntervalServer\<close> with the current time. The code has that branch
  (\<open>if res == nil { return time.Now(), ErrIntervalServer }\<close>), but it stands after the
  test \<open>err == nil && res.Allowed > 0\<close>, which reads \<open>res.Allowed\<close> as soon as \<open>err\<close> is
  nil. With a nil result and a nil error that read panics, so \<open>Take\<close> does not return at
  all and the sentinel is never produced (lemma \<open>Take_error_from_store\<close>).
\<close>

theorem redisLimiter_Take_nil_result_panics:
  assumes "Allow (limiter l) (ctx l) (key l) (limit l) (snd (time_Now w)) = ((None, None), w2)"
  shows "redisLimiter_Take l w = Some (Inl NilPointerDereference)"
  using assms by (rule Take_nil_result)

theorem redisLimiter_Take_nil_result_panics_witness:
  "redisLimiter_Take (example_limiter ''malformed'' Background) example_world =
     Some (Inl NilPointerDereference)"
  using redisLimiter_Take_nil_result_panics
    [of "example_limiter ''malformed'' Background" example_world
       "example_world\<lparr>ticks := 1, asked := 1\<rparr>"]
  by (simp add: example_limiter_def example_world_def example_store_def Allow_def time_Now_def)

text \<open>
  Claim C5. The store denies (\<open>Allowed \<le> 0\<close>) with a positive \<open>RetryAfter\<close>, and in the
  \<open>select\<close> that follows the context's \<open>Done\<close> channel is ready before the timer. Then
  \<open>Take\<close> returns \<open>(time.Now(), nil)\<close>, the clock being read after the wait: a nil
  error, not a cancellation error.
\<close>

theorem redisLimiter_Take_cancelled_returns_nil:
  assumes "Allow (limiter l) (ctx l) (key l) (limit l) (snd (time_Now w)) = ((Some r, None), w2)"
    and "Allowed r \<le> 0" and "0 < RetryAfter r"
    and "select_wait (RetryAfter r) (ctx l) w2 = (ContextDone, w3)"
  shows "redisLimiter_Take l w = Some (Inr ((fst (time_Now w3), None), snd (time_Now w3)))"
  using assms by (rule Take_cancelled)

theorem redisLimiter_Take_cancelled_returns_nil_witness:
  "redisLimiter_Take (example_limiter ''exhausted'' (Cancellable 0)) example_world =
     Some (Inr ((1001, None), example_world\<lparr>ticks := 2, asked := 1, waited := 1\<rparr>))"
  using redisLimiter_Take_cancelled_returns_nil
    [of "example_limiter ''exhausted'' (Cancellable 0)" example_world
       "\<lparr>Allowed = 0, RetryAfter = 250\<rparr>" "example_world\<lparr>ticks := 1, asked := 1\<rparr>"
       "example_world\<lparr>ticks := 1, asked := 1, waited := 1\<rparr>"]
  by (simp add: example_limiter_def example_world_def example_store_def Allow_def time_Now_def
      select_wait_def)

text \<open>
  Claim C6. The store denies (\<open>Allowed \<le> 0\<close>, nil error, non-nil result) with
  \<open>RetryAfter \<le> 0\<close>. Then \<open>Take\<close> returns \<open>(now, nil)\<close> with the reading taken at the
  start of the iteration, in the world right after the query: it neither waits nor
  queries again.
\<close>

theorem redisLimiter_Take_degenerate_denied_fails_open:
  assumes "Allow (limiter l) (ctx l) (key l) (limit l) (snd (time_Now w)) = ((Some r, None), w2)"
    and "Allowed r \<le> 0" and "RetryAfter r \<le> 0"
  shows "redisLimiter_Take l w = Some (Inr ((fst (time_Now w), None), w2))"
  using assms by (rule Take_degenerate)

theorem redisLimiter_Take_degenerate_denied_fails_open_witness:
  "redisLimiter_Take (example_limiter ''degenerate'' Background) example_world =
     Some (Inr ((1000, None), example_world\<lparr>ticks := 1, asked := 1\<rparr>))"
  using redisLimiter_Take_degenerate_denied_fails_open
    [of "example_limiter ''degenerate'' Background" example_world
      "\<lparr>Allowed = 0, RetryAfter = 0\<rparr>" "example_world\<lparr>ticks := 1, asked := 1\<rparr>"]
  by (simp add: example_limiter_def example_world_def example_store_def Allow_def time_Now_def)

section \<open>New\<close>

lemma apply_opts_no_nil:
  "None \<notin> set opts \<Longrightarrow> \<exists>cfg'. apply_opts opts cfg = Inr cfg'"
proof (induction opts arbitrary: cfg)
  case Nil
  show ?case by simp
next
  case (Cons opt opts)
  then show ?case by (cases opt) auto
qed

lemma apply_opts_Per_keeps_ctx:
  "set opts \<subseteq> range Per \<Longrightarrow> apply_opts opts cfg = Inr cfg' \<Longrightarrow>
   config.ctx cfg' = config.ctx cfg"
proof (induction opts arbitrary: cfg)
  case Nil
  then show ?case by simp
next
  case (Cons opt opts)
  from Cons.prems(1) obtain d where "opt = Per d" by auto
  with Cons show ?case by (simp add: Per_def)
qed

text \<open>
  Claim C9. \<open>New\<close> constructs a limiter whenever no option is nil. Whatever the options
  are, the constructed limiter's \<open>Burst\<close> equals \<open>rate\<close>: no option reaches it. When
  every option given is a \<open>Per\<close> option, that is, no \<open>WithContext\<close> is given, the
  limiter's context is \<open>context.Background()\<close>, whose \<open>Done\<close> channel is never ready, so
  that every wait of the limiter ends with the timer.
\<close>

theorem New_burst_is_rate_default_Background:
  "(None \<notin> set opts \<longrightarrow> (\<exists>l. New rdb k rate opts = Inr l)) \<and>
   (\<forall>l. New rdb k rate opts = Inr l \<longrightarrow>
      Burst (limit l) = rate \<and>
      (set opts \<subseteq> range Per \<longrightarrow>
         ctx l = Background \<and> (\<forall>d w. fst (select_wait d (ctx l) w) = TimerElapsed)))"
proof (intro conjI impI allI)
  assume "None \<notin> set opts"
  from apply_opts_no_nil [OF this] obtain cfg'
    where "apply_opts opts \<lparr>per = Second, config.ctx = Background\<rparr> = Inr cfg'" by blast
  then show "\<exists>l. New rdb k rate opts = Inr l" by (simp add: New_def)
next
  fix l assume "New rdb k rate opts = Inr l"
  then show "Burst (limit l) = rate" by (auto simp: New_def split: sum.splits)
next
  fix l assume n: "New rdb k rate opts = Inr l" and p: "set opts \<subseteq> range Per"
  from n obtain cfg'
    where a: "apply_opts opts \<lparr>per = Second, config.ctx = Background\<rparr> = Inr cfg'"
      and c: "ctx l = config.ctx cfg'"
    by (auto simp: New_def split: sum.splits)
  from apply_opts_Per_keeps_ctx [OF p a] c show b: "ctx l = Background" by simp
  fix d w
  from b show "fst (select_wait d (ctx l) w) = TimerElapsed" by (simp add: select_wait_def)
qed

theorem New_burst_is_rate_default_Background_witness:
  "\<exists>l. New () ''aggregate_per_min'' 100 [Per (60 * Second)] = Inr l
     \<and> Burst (limit l) = 100 \<and> ctx l = Background"
  using New_burst_is_rate_default_Background
    [of "[Per (60 * Second)]" "()" "''aggregate_per_min''" 100]
  by (auto simp: Per_def)

section \<open>compositeLimiter\<close>

text \<open>
  The loop over a snapshot \<open>xs @ zs\<close>, when the constituents of \<open>xs\<close> are called one
  after the other, each in the world its predecessor left, and each returns a nil error:
  the loop reaches \<open>zs\<close> with \<open>lastTime\<close> the time of the last of \<open>xs\<close>. Here \<open>ws\<close> lists
  the worlds before, between and after the calls and \<open>ts\<close> the times returned.
\<close>

lemma range_limiters_granted_prefix:
  "length ws = Suc (length xs) \<Longrightarrow> length ts = length xs \<Longrightarrow>
   (\<forall>i<length xs. call_Take (xs ! i) (ws ! i) = Some (Inr ((ts ! i, None), ws ! Suc i))) \<Longrightarrow>
   range_limiters (xs @ zs) t0 (hd ws) = range_limiters zs (last (t0 # ts)) (last ws)"
proof (induction xs arbitrary: ws ts t0)
  case Nil
  then obtain w where "ws = [w]" by (cases ws) auto
  with Nil show ?case by simp
next
  case (Cons x xs)
  from Cons.prems(1) obtain w ws' where ws: "ws = w # ws'" and lws: "length ws' = Suc (length xs)"
    by (cases ws) auto
  from Cons.prems(2) obtain t ts' where ts: "ts = t # ts'" and lts: "length ts' = length xs"
    by (cases ts) auto
  from lws have ne: "ws' \<noteq> []" by auto
  from Cons.prems(3) [rule_format, of 0] ws ts ne
  have first: "call_Take x w = Some (Inr ((t, None), hd ws'))"
    by (simp add: hd_conv_nth)
  have rest: "\<forall>i<length xs. call_Take (xs ! i) (ws' ! i) = Some (Inr ((ts' ! i, None), ws' ! Suc i))"
  proof (intro allI impI)
    fix i assume "i < length xs"
    with Cons.prems(3) [rule_format, of "Suc i"] ws ts show
      "call_Take (xs ! i) (ws' ! i) = Some (Inr ((ts' ! i, None), ws' ! Suc i))" by simp
  qed
  have "range_limiters ((x # xs) @ zs) t0 (hd ws) = range_limiters (xs @ zs) t (hd ws')"
    using first ws by simp
  also have "\<dots> = range_limiters zs (last (t # ts')) (last ws')"
    by (rule Cons.IH [OF lws lts rest])
  finally show ?case using ws ts ne by simp
qed

lemma empty_composite_Take:
  "limiters c = [] \<Longrightarrow>
   compositeLimiter_Take c w =
     Some (Inr ((clock w (ticks w), None), w\<lparr>ticks := Suc (ticks w)\<rparr>))"
  by (simp add: compositeLimiter_Take_def time_Now_def)

text \<open>
  Claim C1. The snapshot \<open>ls\<close> is not empty. If its constituents, called one after the
  other in snapshot order (the i-th in the world \<open>ws ! i\<close> that the call before it left,
  the first in the world in which the composite is called), each return a nil error,
  the i-th with time \<open>ts ! i\<close>, then the composite returns \<open>(last ts, nil)\<close>, the time of
  the last constituent, and leaves the world the last constituent left.
\<close>

theorem compositeLimiter_Take_all_granted:
  assumes "limiters c = ls" and "ls \<noteq> []"
    and "length ws = Suc (length ls)" and "length ts = length ls"
    and "\<forall>i<length ls. call_Take (ls ! i) (ws ! i) = Some (Inr ((ts ! i, None), ws ! Suc i))"
  shows "compositeLimiter_Take c (hd ws) = Some (Inr ((last ts, None), last ws))"
proof -
  from assms(2,4) have "ts \<noteq> []" by auto
  moreover have "range_limiters (ls @ []) 0 (hd ws) = range_limiters [] (last (0 # ts)) (last ws)"
    using assms(3-5) by (rule range_limiters_granted_prefix)
  ultimately show ?thesis using assms(1,2) by (simp add: compositeLimiter_Take_def)
qed

theorem compositeLimiter_Take_all_granted_witness:
  "compositeLimiter_Take
     (NewComposite [Limiter_of (example_limiter ''granted'' Background),
                    Limiter (compositeLimiter_Take (NewComposite [])),
                    Limiter_of (example_limiter ''granted'' (Cancellable 0))])
     example_world =
   Some (Inr ((1002, None), example_world\<lparr>ticks := 3, asked := 2\<rparr>))"
  using compositeLimiter_Take_all_granted
    [of "NewComposite [Limiter_of (example_limiter ''granted'' Background),
                       Limiter (compositeLimiter_Take (NewComposite [])),
                       Limiter_of (example_limiter ''granted'' (Cancellable 0))]"
      "[Limiter_of (example_limiter ''granted'' Background),
        Limiter (compositeLimiter_Take (NewComposite [])),
        Limiter_of (example_limiter ''granted'' (Cancellable 0))]"
      "[example_world, example_world\<lparr>ticks := 1, asked := 1\<rparr>,
        example_world\<lparr>ticks := 2, asked := 1\<rparr>, example_world\<lparr>ticks := 3, asked := 2\<rparr>]"
      "[1000, 1001, 1002]"]
  by (simp add: NewComposite_def Limiter_of_def example_Take_granted
      empty_composite_Take All_less_Suc numeral_3_eq_3 example_world_def)

text \<open>
  Claim C7. With an empty constituent sequence \<open>Take\<close> returns \<open>(time.Now(), nil)\<close>: it
  returns, with a nil error, after one clock reading and nothing else.
\<close>

theorem compositeLimiter_Take_empty_fails_open:
  assumes "limiters c = []"
  shows "compositeLimiter_Take c w = Some (Inr ((fst (time_Now w), None), snd (time_Now w)))"
  using assms by (simp add: compositeLimiter_Take_def case_prod_beta)

theorem compositeLimiter_Take_empty_fails_open_witness:
  "compositeLimiter_Take (NewComposite []) example_world =
     Some (Inr ((1000, None), example_world\<lparr>ticks := 1\<rparr>))"
  using compositeLimiter_Take_empty_fails_open [of "NewComposite []" example_world]
  by (simp add: NewComposite_def time_Now_def example_world_def)

text \<open>
  Claim C8. The snapshot is \<open>xs @ l # ys\<close>; the constituents of \<open>xs\<close>, called in order,
  return nil errors, and \<open>l\<close>, called next, returns the error \<open>e\<close> and leaves the world
  \<open>w1\<close>. Then the composite returns \<open>(time.Now(), e)\<close> with the clock read in \<open>w1\<close>. The
  outcome, result and world, does not depend on \<open>ys\<close>: no constituent after \<open>l\<close> is
  called, and the error returned is that of \<open>l\<close> alone.
\<close>

theorem compositeLimiter_Take_first_error_aborts:
  assumes "limiters c = xs @ l # ys"
    and "length ws = Suc (length xs)" and "length ts = length xs"
    and "\<forall>i<length xs. call_Take (xs ! i) (ws ! i) = Some (Inr ((ts ! i, None), ws ! Suc i))"
    and "call_Take l (last ws) = Some (Inr ((t, Some e), w1))"
  shows "compositeLimiter_Take c (hd ws) =
     Some (Inr ((fst (time_Now w1), Some e), snd (time_Now w1)))"
proof -
  have "range_limiters (xs @ l # ys) 0 (hd ws) = range_limiters (l # ys) (last (0 # ts)) (last ws)"
    using assms(2-4) by (rule range_limiters_granted_prefix)
  then show ?thesis using assms(1,5) by (simp add: compositeLimiter_Take_def case_prod_beta)
qed

theorem compositeLimiter_Take_first_error_aborts_witness:
  "compositeLimiter_Take
     (NewComposite [Limiter_of (example_limiter ''granted'' Background),
                    Limiter_of (example_limiter ''unreachable'' Background),
                    NilLimiter])
     example_world =
   Some (Inr ((1003, Some (StoreError ''connection refused'')),
              example_world\<lparr>ticks := 4, asked := 2\<rparr>))"
  using compositeLimiter_Take_first_error_aborts
    [of "NewComposite [Limiter_of (example_limiter ''granted'' Background),
                       Limiter_of (example_limiter ''unreachable'' Background),
                       NilLimiter]"
      "[Limiter_of (example_limiter ''granted'' Background)]"
      "Limiter_of (example_limiter ''unreachable'' Background)"
      "[NilLimiter]"
      "[example_world, example_world\<lparr>ticks := 1, asked := 1\<rparr>]"
      "[1000]" 1002 "StoreError ''connection refused''"
      "example_world\<lparr>ticks := 3, asked := 2\<rparr>"]
  by (simp add: NewComposite_def Limiter_of_def example_Take_granted example_Take_unreachable
      time_Now_def example_world_def)

text \<open>
  Claim C10. \<open>AddLimiter\<close> makes the constituent sequence one longer, leaves every
  constituent that was there at its index, and puts the argument at the new last index.
  This holds for every argument, the nil \<open>Limiter\<close> included: nothing is checked.
\<close>

theorem AddLimiter_appends_one:
  "length (limiters (AddLimiter c l)) = Suc (length (limiters c)) \<and>
   (\<forall>i<length (limiters c). limiters (AddLimiter c l) ! i = limiters c ! i) \<and>
   limiters (AddLimiter c l) ! length (limiters c) = l"
  by (simp add: AddLimiter_def nth_append)

theorem AddLimiter_appends_one_witness:
  "length (limiters (AddLimiter (NewComposite [Limiter_of (example_limiter ''granted'' Background)])
      NilLimiter)) = 2
   \<and> limiters (AddLimiter (NewComposite [Limiter_of (example_limiter ''granted'' Background)])
      NilLimiter) ! 0 = Limiter_of (example_limiter ''granted'' Background)
   \<and> limiters (AddLimiter (NewComposite [Limiter_of (example_limiter ''granted'' Background)])
      NilLimiter) ! 1 = NilLimiter"
  using AddLimiter_appends_one
    [of "NewComposite [Limiter_of (example_limiter ''granted'' Background)]" NilLimiter]
  by (simp add: NewComposite_def)

end
